theory Spec2Isabelle
  imports Complex_Main "HOL-Library.AList" "HOL-Library.Sublist"
begin

section \<open>JavaScript values\<close>

text \<open>
  The schema builder of \<^verbatim>\<open>src/js/schema.js\<close> is dynamically typed: every function takes
  and returns arbitrary JavaScript values and dispatches on their run-time shape with
  underscore's predicates. The embedding therefore starts from a datatype of the values the
  code can tell apart.

  \<^item> Numbers are carried through the builders without arithmetic; \<open>jsnum\<close> keeps the finite
    values as rationals and the three special values apart.
  \<^item> A regular expression is represented by the pattern text given to its constructor.
  \<^item> A function is opaque; the only things the code can observe of it are that it is
    callable, its \<^verbatim>\<open>length\<close> (the declared arity) and the text it is converted to when
    it is interpolated in a string. \<open>VFunction\<close> records the arity and that text.
  \<^item> An array is its list of elements together with the three extra own properties this
    module ever attaches to an array: the marker \<^verbatim>\<open>_schema\<close> (set by \<^verbatim>\<open>bless\<close>), the
    overridden \<^verbatim>\<open>toString\<close> (set by \<^verbatim>\<open>refHandler\<close>) and the method \<^verbatim>\<open>to\<close> (set by
    \<^verbatim>\<open>fn\<close>). \<open>p_schema\<close> is the truthiness of the marker.
  \<^item> A plain object is the list of its own enumerable properties in enumeration order.

  Values are compared structurally. The code never mutates an array after the builder that
  created it has returned (\<^verbatim>\<open>bless\<close> and \<^verbatim>\<open>refHandler\<close> act on arrays freshly created in the
  same call), so a value stands for the object it was read from.
\<close>

datatype jsnum = Finite rat | PosInfinity | NegInfinity | NaN

datatype props = Props (p_schema: bool) (p_toString: bool) (p_to: bool)

datatype jsval =
    VUndefined
  | VNull
  | VBoolean bool
  | VNumber jsnum
  | VString string
  | VRegExp string
  | VFunction nat string
  | VArray props "jsval list"
  | VObject "(string \<times> jsval) list"

text \<open>
  The source has one \<^verbatim>\<open>throw\<close>, in \<^verbatim>\<open>literals\<close>: it throws a plain \<^verbatim>\<open>Error\<close> whose
  only content is its message, \<open>UnknownSchemaValue\<close> with that message. So two calls that
  raise with the same message raise the same error. The other three errors are the ones the
  runtime raises by itself on the paths the code can take: calling a missing method or
  destructuring a value that is not iterable (\<open>TypeError\<close>), allocating an array of an invalid
  length (\<open>RangeError\<close>), and a pattern the \<^verbatim>\<open>RegExp\<close> constructor rejects (\<open>SyntaxError\<close>).
\<close>

datatype error = UnknownSchemaValue string | TypeError | RangeError | SyntaxError

text \<open>An array literal of the source: no extra property yet.\<close>

definition plain :: props where
  "plain = Props False False False"

subsection \<open>underscore's type predicates\<close>

fun isArray :: "jsval \<Rightarrow> bool" where
  "isArray (VArray p xs) = True"
| "isArray v = False"

fun isString :: "jsval \<Rightarrow> bool" where
  "isString (VString s) = True"
| "isString v = False"

fun isNumber :: "jsval \<Rightarrow> bool" where
  "isNumber (VNumber n) = True"
| "isNumber v = False"

fun isRegExp :: "jsval \<Rightarrow> bool" where
  "isRegExp (VRegExp s) = True"
| "isRegExp v = False"

fun isFunction :: "jsval \<Rightarrow> bool" where
  "isFunction (VFunction n src) = True"
| "isFunction v = False"

text \<open>
  \<^verbatim>\<open>_.isObject\<close> holds of every function and of every object that is not \<^verbatim>\<open>null\<close>: arrays
  and regular expressions are objects too.
\<close>

fun isObject :: "jsval \<Rightarrow> bool" where
  "isObject (VFunction n src) = True"
| "isObject (VRegExp s) = True"
| "isObject (VArray p xs) = True"
| "isObject (VObject kvs) = True"
| "isObject v = False"

subsection \<open>Reading values\<close>

fun elements :: "jsval \<Rightarrow> jsval list" where
  "elements (VArray p xs) = xs"
| "elements v = []"

fun truthy :: "jsval \<Rightarrow> bool" where
  "truthy VUndefined = False"
| "truthy VNull = False"
| "truthy (VBoolean b) = b"
| "truthy (VNumber n) = (n \<noteq> NaN \<and> n \<noteq> Finite 0)"
| "truthy (VString s) = (s \<noteq> [])"
| "truthy v = True"

text \<open>Decimal notation of a natural number, as \<^verbatim>\<open>n + ''\<close> yields it.\<close>

fun digit :: "nat \<Rightarrow> char" where
  "digit n = ''0123456789'' ! n"

fun string_of_nat :: "nat \<Rightarrow> string" where
  "string_of_nat n = (if n < 10 then [digit n] else string_of_nat (n div 10) @ [digit (n mod 10)])"

declare string_of_nat.simps [simp del]

text \<open>\<^verbatim>\<open>var schemaMagic = '_schema'\<close>\<close>

definition schemaMagic :: string where
  "schemaMagic = ''_schema''"

text \<open>
  The two functions this module attaches to an array, as values: neither declares a
  parameter, and the text is the source text of the function. The method \<^verbatim>\<open>to\<close> is a
  function returned by \<^verbatim>\<open>blessFn\<close>.
\<close>

definition to_text :: string where
  "to_text = ''(...args) => bless(fn(...args))''"

definition toString_text :: string where
  "toString_text =
     ''function () {'' @ [CHR 0x0A, CHR 0x09, CHR 0x09] @ ''var id = _.uniqueId(magic);''
     @ [CHR 0x0A, CHR 0x09, CHR 0x09] @ ''cache[id] = this;''
     @ [CHR 0x0A, CHR 0x09, CHR 0x09] @ ''return id;'' @ [CHR 0x0A, CHR 0x09] @ ''}''"

text \<open>
  The own enumerable properties of an object, in enumeration order: the entries of a plain
  object; for an array its indices, followed by the extra properties that were assigned to
  it. Functions and regular expressions have none.
\<close>

fun ownEnumerable :: "jsval \<Rightarrow> (string \<times> jsval) list" where
  "ownEnumerable (VObject kvs) = kvs"
| "ownEnumerable (VArray p xs) =
     zip (map string_of_nat [0..<length xs]) xs
     @ (if p_to p then [(''to'', VFunction 0 to_text)] else [])
     @ (if p_toString p then [(''toString'', VFunction 0 toString_text)] else [])
     @ (if p_schema p then [(schemaMagic, VBoolean True)] else [])"
| "ownEnumerable v = []"

text \<open>\<^verbatim>\<open>Object.keys(value)\<close>\<close>

definition Object_keys :: "jsval \<Rightarrow> string list" where
  "Object_keys value = map fst (ownEnumerable value)"

text \<open>The property read \<^verbatim>\<open>value[schemaMagic]\<close>.\<close>

fun get_schemaMagic :: "jsval \<Rightarrow> jsval" where
  "get_schemaMagic (VArray p xs) = (if p_schema p then VBoolean True else VUndefined)"
| "get_schemaMagic (VObject kvs) = (case map_of kvs schemaMagic of Some v \<Rightarrow> v | None \<Rightarrow> VUndefined)"
| "get_schemaMagic v = VUndefined"

text \<open>
  The text of a value interpolated in a template literal, \<^verbatim>\<open>${value}\<close>. \<^verbatim>\<open>literals\<close>
  interpolates only a value that has failed all its tests, which is \<^verbatim>\<open>undefined\<close>,
  \<^verbatim>\<open>null\<close>, a boolean or a function (\<open>unsupported_kinds\<close> below); the last equation is
  never exercised.
\<close>

fun template_text :: "jsval \<Rightarrow> string" where
  "template_text VUndefined = ''undefined''"
| "template_text VNull = ''null''"
| "template_text (VBoolean b) = (if b then ''true'' else ''false'')"
| "template_text (VFunction n src) = src"
| "template_text v = []"


section \<open>Variant model: the blessing marker\<close>

text \<open>
  \<^verbatim>\<open>function isSchema(value) { return _.isArray(value) && value[schemaMagic]; }\<close>
  The result is used as a condition only, so the model returns its truthiness.
\<close>

definition isSchema :: "jsval \<Rightarrow> bool" where
  "isSchema value = (isArray value \<and> truthy (get_schemaMagic value))"

text \<open>
  The values \<^verbatim>\<open>literals\<close> has no case for: the negation of each of its five tests, in
  their order.
\<close>

definition unsupported :: "jsval \<Rightarrow> bool" where
  "unsupported value =
     (\<not> isSchema value \<and> \<not> isString value \<and> \<not> isNumber value \<and> \<not> isArray value
      \<and> \<not> (isObject value \<and> \<not> isArray value \<and> \<not> isFunction value))"

text \<open>
  \<^verbatim>\<open>function bless(schema) { schema[schemaMagic] = true; return schema; }\<close>
  Every call site passes the array a builder has just created, which is the first equation;
  the second one is never exercised.
\<close>

fun bless :: "jsval \<Rightarrow> jsval" where
  "bless (VArray p xs) = VArray (Props True (p_toString p) (p_to p)) xs"
| "bless v = v"

text \<open>
  \<^verbatim>\<open>var blessFn = fn => (...args) => bless(fn(...args));\<close>
  A builder either returns a node or raises; \<open>blessFn\<close> takes the outcome of the wrapped call
  and blesses the node, an exception passes through.
\<close>

definition blessFn :: "error + jsval \<Rightarrow> error + jsval" where
  "blessFn r = (case r of Inl e \<Rightarrow> Inl e | Inr schema \<Rightarrow> Inr (bless schema))"

text \<open>
  The outcome of a builder call is acceptable for the blessing invariant when the call raised
  or the node it returned is blessed.
\<close>

definition blessed_result :: "error + jsval \<Rightarrow> bool" where
  "blessed_result r = (case r of Inl e \<Rightarrow> True | Inr v \<Rightarrow> isSchema v)"

section \<open>Sequencing of calls that may raise\<close>

text \<open>
  \<open>andThen r f\<close> continues with \<open>f\<close> when the first call returned and propagates its
  exception otherwise. \<open>map_e f xs\<close> is \<^verbatim>\<open>xs.map(f)\<close> (and \<^verbatim>\<open>_.map(xs, f)\<close> on an array)
  for an \<open>f\<close> that may raise: the elements are visited from left to right and the first
  exception ends the loop.
\<close>

definition andThen :: "'e + 'a \<Rightarrow> ('a \<Rightarrow> 'e + 'b) \<Rightarrow> 'e + 'b" where
  "andThen r f = (case r of Inl e \<Rightarrow> Inl e | Inr x \<Rightarrow> f x)"

fun map_e :: "('a \<Rightarrow> 'e + 'b) \<Rightarrow> 'a list \<Rightarrow> 'e + 'b list" where
  "map_e f [] = Inr []"
| "map_e f (x # xs) = andThen (f x) (\<lambda>y. andThen (map_e f xs) (\<lambda>ys. Inr (y # ys)))"

section \<open>Language and library operations used by the builders\<close>

text \<open>\<^verbatim>\<open>xs.slice(a, b)\<close> for indices that are not negative; \<^verbatim>\<open>xs.slice(a)\<close> is \<open>drop a xs\<close>.\<close>

definition slice :: "'a list \<Rightarrow> nat \<Rightarrow> nat \<Rightarrow> 'a list" where
  "slice xs a b = drop a (take b xs)"

text \<open>Reading position \<open>i\<close> of an argument list or of a destructured array: \<^verbatim>\<open>undefined\<close>
  past the end.\<close>

definition item :: "jsval list \<Rightarrow> nat \<Rightarrow> jsval" where
  "item xs i = (if i < length xs then xs ! i else VUndefined)"

text \<open>
  Array destructuring \<^verbatim>\<open>[type, opts, ...rest] = v\<close> iterates \<open>v\<close>: an array yields its
  elements, a string its characters, and every other value of the model is not iterable.
\<close>

fun iterate :: "jsval \<Rightarrow> error + jsval list" where
  "iterate (VArray p xs) = Inr xs"
| "iterate (VString s) = Inr (map (\<lambda>ch. VString [ch]) s)"
| "iterate v = Inl TypeError"

text \<open>\<^verbatim>\<open>k.indexOf(sub)\<close>: the first position at which \<open>sub\<close> occurs in \<open>k\<close>, or \<open>-1\<close>.\<close>

fun indexOf :: "'a list \<Rightarrow> 'a list \<Rightarrow> int" where
  "indexOf [] sub = (if sub = [] then 0 else - 1)"
| "indexOf (x # xs) sub =
     (if prefix sub (x # xs) then 0
      else if indexOf xs sub < 0 then - 1 else indexOf xs sub + 1)"

text \<open>
  underscore's \<^verbatim>\<open>getLength\<close> (the \<^verbatim>\<open>length\<close> property, \<^verbatim>\<open>undefined\<close> on \<^verbatim>\<open>null\<close> and
  \<^verbatim>\<open>undefined\<close>) and \<^verbatim>\<open>isArrayLike\<close>: the length is a number between \<open>0\<close> and
  \<open>2\<^sup>5\<^sup>3 - 1\<close>.
\<close>

fun getLength :: "jsval \<Rightarrow> jsval" where
  "getLength (VString s) = VNumber (Finite (of_nat (length s)))"
| "getLength (VFunction n src) = VNumber (Finite (of_nat n))"
| "getLength (VArray p xs) = VNumber (Finite (of_nat (length xs)))"
| "getLength (VObject kvs) = (case map_of kvs ''length'' of Some v \<Rightarrow> v | None \<Rightarrow> VUndefined)"
| "getLength v = VUndefined"

definition isArrayLike :: "jsval \<Rightarrow> bool" where
  "isArrayLike obj =
     (case getLength obj of
        VNumber (Finite n) \<Rightarrow> 0 \<le> n \<and> n \<le> 2 ^ 53 - 1
      | _ \<Rightarrow> False)"

text \<open>\<^verbatim>\<open>_.keys(obj)\<close> with the values: nothing for a value that is not an object.\<close>

definition keys_entries :: "jsval \<Rightarrow> (string \<times> jsval) list" where
  "keys_entries obj = (if isObject obj then ownEnumerable obj else [])"

text \<open>
  \<^verbatim>\<open>_.map(obj, iteratee)\<close> as \<^verbatim>\<open>objargs\<close> uses it, with \<^verbatim>\<open>key\<close> as the iteratee. For a
  collection that is not array-like, underscore calls \<^verbatim>\<open>iteratee(obj[k], k)\<close> for every key
  \<open>k\<close> of \<^verbatim>\<open>_.keys(obj)\<close>, in order. For an array-like collection it allocates
  \<^verbatim>\<open>Array(length)\<close>, which raises a \<open>RangeError\<close> unless the length is an integer below
  \<open>2\<^sup>3\<^sup>2\<close>, and then calls \<^verbatim>\<open>iteratee(obj[0], 0)\<close> first: the key is a number, and
  \<^verbatim>\<open>keyType\<close> raises a \<open>TypeError\<close> on it (a number has no \<^verbatim>\<open>indexOf\<close>). So an
  array-like collection yields the empty list when its length is \<open>0\<close> and an error otherwise.
\<close>

definition map_object :: "(jsval \<Rightarrow> string \<Rightarrow> error + 'b) \<Rightarrow> jsval \<Rightarrow> error + 'b list" where
  "map_object f obj =
     (if isArrayLike obj then
        (case getLength obj of
           VNumber (Finite n) \<Rightarrow>
             if n = 0 then Inr []
             else if of_int \<lfloor>n\<rfloor> \<noteq> n \<or> 2 ^ 32 - 1 < n then Inl RangeError
             else Inl TypeError
         | _ \<Rightarrow> Inl TypeError)
      else map_e (\<lambda>(k, v). f v k) (keys_entries obj))"

text \<open>
  \<^verbatim>\<open>function partitionN(coll, n) {
    return _.range(coll.length / n).map(i => coll.slice(i * n, (i + 1) * n)); }\<close>
  \<^verbatim>\<open>_.range(x)\<close> counts from \<open>0\<close> up to the ceiling of \<open>x\<close>. The only call passes \<open>n = 2\<close>.
\<close>

definition partitionN :: "'a list \<Rightarrow> nat \<Rightarrow> 'a list list" where
  "partitionN coll n = map (\<lambda>i. slice coll (i * n) ((i + 1) * n)) [0..<(length coll + n - 1) div n]"

section \<open>Reference cache\<close>

text \<open>
  \<^verbatim>\<open>var cache = {};\<close> and underscore's private counter behind \<^verbatim>\<open>_.uniqueId\<close> are the
  two pieces of mutable state. Only the overridden \<^verbatim>\<open>toString\<close> writes them; the builders
  read the cache and take it as the argument \<open>c\<close>.
\<close>

record state =
  cache :: "string \<rightharpoonup> jsval"
  idCounter :: nat

text \<open>\<^verbatim>\<open>var magic = '__$$_$_$$'; // don't prefix your schema keys with this.\<close>\<close>

definition magic :: string where
  "magic = ''__$$_$_$$''"

text \<open>\<^verbatim>\<open>_.uniqueId(prefix)\<close>: \<^verbatim>\<open>var id = ++idCounter + ''; return prefix + id;\<close>\<close>

definition uniqueId :: "string \<Rightarrow> state \<Rightarrow> string \<times> state" where
  "uniqueId pre st =
     (let n = idCounter st + 1 in (pre @ string_of_nat n, st\<lparr>idCounter := n\<rparr>))"


text \<open>
  \<^verbatim>\<open>function refHandler(schema) { schema.toString = function ...; return schema; }\<close>
  Its only call site passes a fresh array.
\<close>

fun refHandler :: "jsval \<Rightarrow> jsval" where
  "refHandler (VArray p xs) = VArray (Props (p_schema p) True (p_to p)) xs"
| "refHandler v = v"


text \<open>The read \<^verbatim>\<open>cache[k]\<close>: \<^verbatim>\<open>undefined\<close> when the cache has no entry under \<open>k\<close>.\<close>

definition cache_get :: "(string \<rightharpoonup> jsval) \<Rightarrow> string \<Rightarrow> jsval" where
  "cache_get c k = (case c k of Some schema \<Rightarrow> schema | None \<Rightarrow> VUndefined)"

section \<open>Key classifier\<close>

text \<open>
  \<^verbatim>\<open>function keyType(k) {
    return (k[0] === '/' && k[k.length - 1] === '/') ? 'pattern' :
      (k.indexOf(magic) === 0 ? 'reference' : 'string'); }\<close>
  for a string \<open>k\<close>; \<^verbatim>\<open>k[0]\<close> of the empty string is \<^verbatim>\<open>undefined\<close>.
\<close>

definition keyType :: "string \<Rightarrow> string" where
  "keyType k =
     (if 0 < length k \<and> k ! 0 = CHR ''/'' \<and> k ! (length k - 1) = CHR ''/'' then ''pattern''
      else if indexOf k magic = 0 then ''reference'' else ''string'')"

text \<open>
  \<^verbatim>\<open>var cases = (obj, type) => obj[type]();\<close>
  The table maps a name to a thunk; the model gives the outcome of running each thunk.
\<close>

definition cases :: "(string \<times> (error + 'a)) list \<Rightarrow> string \<Rightarrow> error + 'a" where
  "cases obj type = (case map_of obj type of Some thunk \<Rightarrow> thunk | None \<Rightarrow> Inl TypeError)"

text \<open>
  \<^verbatim>\<open>new RegExp(src)\<close>. Which pattern texts the constructor accepts is the host's regular
  expression syntax, which the model takes as the parameter \<open>rx\<close>.
\<close>

definition new_RegExp :: "(string \<Rightarrow> bool) \<Rightarrow> string \<Rightarrow> error + jsval" where
  "new_RegExp rx src = (if rx src then Inr (VRegExp src) else Inl SyntaxError)"

section \<open>Builders\<close>

text \<open>
  The table \<^verbatim>\<open>methods\<close> is passed through \<^verbatim>\<open>blessAll\<close>, which wraps every function in
  \<^verbatim>\<open>blessFn\<close> and blesses the two constants; the results are the properties of the export
  \<^verbatim>\<open>S\<close>. \<open>S_string\<close> is \<^verbatim>\<open>S.string\<close>, and so on.
\<close>

definition S_string :: "jsval \<Rightarrow> error + jsval" where
  "S_string value = blessFn
     (let val = (if isString value then VArray plain [VString ''value'', value]
                 else if isRegExp value then VArray plain [VString ''pattern'', value]
                 else VArray plain [])
      in Inr (VArray plain [VString ''string'', VObject [], val]))"

definition S_number :: "jsval \<Rightarrow> error + jsval" where
  "S_number value = blessFn
     (let val = (if isArray value then VArray plain [VString ''interval'', value]
                 else if isNumber value then VArray plain [VString ''value'', value]
                 else VArray plain [])
      in Inr (VArray plain [VString ''number'', VObject [], val]))"

subsection \<open>Literal coercion and the builders it calls\<close>

text \<open>
  \<^verbatim>\<open>literals\<close> calls \<^verbatim>\<open>S.arrayOf\<close>, \<^verbatim>\<open>S.array\<close>, \<^verbatim>\<open>S.objectOf\<close> and \<^verbatim>\<open>S.object\<close>, which
  call \<^verbatim>\<open>literals\<close> again on the parts of their arguments, directly or through \<^verbatim>\<open>objargs\<close>
  and \<^verbatim>\<open>key\<close>: the seven functions are defined together. \<^verbatim>\<open>S.objectOf\<close> is the same
  function as \<^verbatim>\<open>S.dict\<close> (\<^verbatim>\<open>methods.objectOf = methods.dict\<close>).

  The recursion passes through \<open>andThen\<close>, \<open>map_e\<close> and \<open>map_object\<close>; the three congruence
  rules say on which arguments these call the function they are given.
\<close>

lemma andThen_cong [fundef_cong]:
  "r = r' \<Longrightarrow> (\<And>x. r' = Inr x \<Longrightarrow> f x = g x) \<Longrightarrow> andThen r f = andThen r' g"
  by (auto simp: andThen_def split: sum.splits)

lemma map_e_cong [fundef_cong]:
  "xs = ys \<Longrightarrow> (\<And>x. x \<in> set ys \<Longrightarrow> f x = g x) \<Longrightarrow> map_e f xs = map_e g ys"
  by (induction ys arbitrary: xs) (auto intro!: andThen_cong)

lemma map_object_cong [fundef_cong]:
  "obj = obj' \<Longrightarrow>
   (\<And>k v. \<not> isArrayLike obj' \<Longrightarrow> (k, v) \<in> set (keys_entries obj') \<Longrightarrow> f v k = g v k) \<Longrightarrow>
   map_object f obj = map_object g obj'"
  unfolding map_object_def by (auto intro!: map_e_cong)

function literals :: "(string \<Rightarrow> bool) \<Rightarrow> (string \<rightharpoonup> jsval) \<Rightarrow> jsval \<Rightarrow> error + jsval"
  and S_arrayOf :: "(string \<Rightarrow> bool) \<Rightarrow> (string \<rightharpoonup> jsval) \<Rightarrow> jsval \<Rightarrow> error + jsval"
  and S_array :: "(string \<Rightarrow> bool) \<Rightarrow> (string \<rightharpoonup> jsval) \<Rightarrow> jsval list \<Rightarrow> error + jsval"
  and S_object :: "(string \<Rightarrow> bool) \<Rightarrow> (string \<rightharpoonup> jsval) \<Rightarrow> jsval list \<Rightarrow> error + jsval"
  and S_dict :: "(string \<Rightarrow> bool) \<Rightarrow> (string \<rightharpoonup> jsval) \<Rightarrow> jsval list \<Rightarrow> error + jsval"
  and objargs :: "(string \<Rightarrow> bool) \<Rightarrow> (string \<rightharpoonup> jsval) \<Rightarrow> string \<Rightarrow> jsval list \<Rightarrow> error + jsval"
  and key :: "(string \<Rightarrow> bool) \<Rightarrow> (string \<rightharpoonup> jsval) \<Rightarrow> jsval \<Rightarrow> string \<Rightarrow> error + jsval"
where
  "literals rx c value =
     (if isSchema value then Inr value
      else if isString value then S_string value
      else if isNumber value then S_number value
      else if isArray value then
        (if length (elements value) = 1 then S_arrayOf rx c (elements value ! 0)
         else S_array rx c (elements value))
      else if isObject value \<and> \<not> isArray value \<and> \<not> isFunction value then
        (if length (Object_keys value) = 1 then S_dict rx c [value] else S_object rx c [value])
      else Inl (UnknownSchemaValue (''Unknown schema value '' @ template_text value)))"
| "S_arrayOf rx c schema = blessFn
     (andThen (literals rx c schema) (\<lambda>s.
        Inr (VArray plain [VString ''list'', VObject [], s])))"
| "S_array rx c schemas = blessFn
     (andThen (map_e (literals rx c) schemas) (\<lambda>ss.
        Inr (VArray plain ([VString ''tuple'', VObject []] @ ss))))"
| "S_object rx c args = blessFn (objargs rx c ''object'' args)"
| "S_dict rx c args = blessFn (objargs rx c ''dict'' args)"
| "objargs rx c type args =
     (if length args = 1 then
        andThen (map_object (key rx c) (args ! 0)) (\<lambda>pairs.
          Inr (VArray plain ([VString type, VObject []] @ pairs)))
      else
        andThen (map_e (\<lambda>schs. andThen (map_e (literals rx c) schs) (\<lambda>ss. Inr (VArray plain ss)))
                   (partitionN args 2)) (\<lambda>pairs.
          Inr (VArray plain ([VString type, VObject []] @ pairs))))"
| "key rx c schema k = cases
     [(''pattern'',
         andThen (new_RegExp rx (slice k 1 (length k - 1))) (\<lambda>re.
         andThen (S_string re) (\<lambda>ks.
         andThen (literals rx c schema) (\<lambda>s. Inr (VArray plain [ks, s]))))),
      (''string'',
         andThen (S_string (VString k)) (\<lambda>ks.
         andThen (literals rx c schema) (\<lambda>s. Inr (VArray plain [ks, s])))),
      (''reference'',
         andThen (literals rx c schema) (\<lambda>s. Inr (VArray plain [cache_get c k, s])))]
     (keyType k)"
  by pat_completeness auto

text \<open>
  Termination: every call chain leads from a value to a strictly smaller part of it. The
  measure doubles the size of the value and uses the odd numbers in between to order the
  functions that pass the same value on.
\<close>

definition objargs_measure :: "jsval list \<Rightarrow> nat" where
  "objargs_measure args =
     (if length args = 1 then 2 * size (args ! 0) + 1 else 2 * size_list size args + 4)"

lemma size_list_member: "x \<in> set xs \<Longrightarrow> Suc (f x) \<le> size_list f xs"
  by (induction xs) auto

lemma size_elements: "isArray value \<Longrightarrow> size value = Suc (size_list size (elements value))"
  by (cases "value") auto

lemma size_keys_entries:
  assumes "(k, v) \<in> set (keys_entries obj)" and "\<not> isArrayLike obj"
  shows "size v + 2 \<le> size obj"
proof (cases obj)
  case (VObject kvs)
  with assms(1) have "Suc (size_prod (\<lambda>_. 0) size (k, v)) \<le> size_list (size_prod (\<lambda>_. 0) size) kvs"
    by (intro size_list_member) (simp add: keys_entries_def)
  with VObject show ?thesis by simp
next
  case (VArray p xs)
  with assms(2) have ne: "xs \<noteq> []"
    by (auto simp: isArrayLike_def)
  then have two: "2 \<le> size obj"
    using VArray by (cases xs) auto
  from assms(1) VArray consider "v \<in> set xs" | "size v = 0"
    by (auto simp: keys_entries_def dest: set_zip_rightD split: if_splits)
  then show ?thesis
  proof cases
    case 1
    then have "Suc (size v) \<le> size_list size xs" by (rule size_list_member)
    with VArray show ?thesis by simp
  next
    case 2
    with two show ?thesis by simp
  qed
qed (use assms in \<open>auto simp: keys_entries_def\<close>)

lemma set_slice: "x \<in> set (slice xs a b) \<Longrightarrow> x \<in> set xs"
  unfolding slice_def by (meson in_set_dropD in_set_takeD)

lemma set_partitionN: "schs \<in> set (partitionN args n) \<Longrightarrow> x \<in> set schs \<Longrightarrow> x \<in> set args"
  unfolding partitionN_def by (auto dest: set_slice)

termination literals
proof (relation "measure (\<lambda>x. case x of
      Inl (Inl (rx, c, v)) \<Rightarrow> 2 * size v + 3
    | Inl (Inr (Inl (rx, c, v))) \<Rightarrow> 2 * size v + 4
    | Inl (Inr (Inr (rx, c, vs))) \<Rightarrow> 2 * size_list size vs + 4
    | Inr (Inl (Inl (rx, c, args))) \<Rightarrow> objargs_measure args + 1
    | Inr (Inl (Inr (rx, c, args))) \<Rightarrow> objargs_measure args + 1
    | Inr (Inr (Inl (rx, c, ty, args))) \<Rightarrow> objargs_measure args
    | Inr (Inr (Inr (rx, c, v, k))) \<Rightarrow> 2 * size v + 4)", goal_cases)
  case (2 rx c "value")
  then show ?case
    by (cases "value"; cases "elements value") (auto simp: size_elements)
next
  case (3 rx c "value")
  then show ?case by (simp add: size_elements)
next
  case (7 rx c schemas x)
  then show ?case using size_list_member [of x schemas size] by simp
next
  case (10 rx c type args k v)
  then show ?case using size_keys_entries [of k v "args ! 0"] by (simp add: objargs_measure_def)
next
  case (11 rx c type args schs x)
  then show ?case
    using size_list_member [of x args size] set_partitionN [of schs args 2 x]
    by (simp add: objargs_measure_def)
qed (simp_all add: objargs_measure_def)

lemmas [simp del] =
  literals.simps S_arrayOf.simps S_array.simps S_object.simps S_dict.simps objargs.simps key.simps

subsection \<open>The remaining builders\<close>

definition S_or :: "(string \<Rightarrow> bool) \<Rightarrow> (string \<rightharpoonup> jsval) \<Rightarrow> jsval list \<Rightarrow> error + jsval" where
  "S_or rx c schemas = blessFn
     (andThen (map_e (literals rx c) schemas) (\<lambda>ss.
        Inr (VArray plain ([VString ''or'', VObject []] @ ss))))"

definition S_objectOf :: "(string \<Rightarrow> bool) \<Rightarrow> (string \<rightharpoonup> jsval) \<Rightarrow> jsval list \<Rightarrow> error + jsval" where
  "S_objectOf = S_dict"

text \<open>
  \<^verbatim>\<open>fn: function(...schemas) {
    var s = ['function', {}, null, ..._.map(schemas, literals)];
    return _.extend(s, {to: blessFn(schema => [...s.slice(0, 2), schema, ...s.slice(3)])}); }\<close>
  \<open>to_closure s\<close> is the method, \<open>s\<close> the elements of the array it closes over;
  \<open>method_to\<close> reads the property \<^verbatim>\<open>to\<close> of a node, which only \<^verbatim>\<open>fn\<close> sets.
\<close>

definition to_closure :: "jsval list \<Rightarrow> jsval \<Rightarrow> error + jsval" where
  "to_closure s schema = blessFn (Inr (VArray plain (slice s 0 2 @ [schema] @ drop 3 s)))"

fun method_to :: "jsval \<Rightarrow> (jsval \<Rightarrow> error + jsval) option" where
  "method_to (VArray p s) = (if p_to p then Some (to_closure s) else None)"
| "method_to v = None"

definition S_fn :: "(string \<Rightarrow> bool) \<Rightarrow> (string \<rightharpoonup> jsval) \<Rightarrow> jsval list \<Rightarrow> error + jsval" where
  "S_fn rx c schemas = blessFn
     (andThen (map_e (literals rx c) schemas) (\<lambda>ss.
        Inr (VArray (Props False False True) ([VString ''function'', VObject [], VNull] @ ss))))"

text \<open>
  \<^verbatim>\<open>var m = (...objs) => _.pick(_.extend.apply(null, [{}, ...objs]), v => v !== undefined);\<close>
  \<^verbatim>\<open>_.extend\<close> copies the enumerable properties of every source that is an object into the
  destination, sources from left to right, a later value replacing an earlier one under the
  same key; \<^verbatim>\<open>_.pick\<close> keeps the properties whose value passes the test. The result
  lists its properties in insertion order, which is the order in which the engine enumerates
  them, except that an engine enumerates keys that are array indices first.
\<close>

definition allKeys_entries :: "jsval \<Rightarrow> (string \<times> jsval) list" where
  "allKeys_entries obj = (if isObject obj then ownEnumerable obj else [])"

definition extend :: "(string \<times> jsval) list \<Rightarrow> jsval list \<Rightarrow> (string \<times> jsval) list" where
  "extend obj sources =
     fold (\<lambda>source acc. fold (\<lambda>(k, v). AList.update k v) (allKeys_entries source) acc) sources obj"

definition pick_defined :: "(string \<times> jsval) list \<Rightarrow> (string \<times> jsval) list" where
  "pick_defined obj = filter (\<lambda>(k, v). v \<noteq> VUndefined) obj"

definition m :: "jsval list \<Rightarrow> jsval" where
  "m objs = VObject (pick_defined (extend [] objs))"

text \<open>
  \<^verbatim>\<open>desc: function (...args) {
    if (args.length === 2) { args.unshift(undefined); }
    var [title, description, schema] = args, [type, opts, ...rest] = literals(schema);
    return refHandler([type, m({title: title, description: description}, opts), ...rest]); }\<close>
\<close>

definition S_desc :: "(string \<Rightarrow> bool) \<Rightarrow> (string \<rightharpoonup> jsval) \<Rightarrow> jsval list \<Rightarrow> error + jsval" where
  "S_desc rx c args0 = blessFn
     (let args = (if length args0 = 2 then VUndefined # args0 else args0);
          title = item args 0; description = item args 1; schema = item args 2
      in andThen (literals rx c schema) (\<lambda>node.
         andThen (iterate node) (\<lambda>xs.
           Inr (refHandler (VArray plain
             ([item xs 0,
               m [VObject [(''title'', title), (''description'', description)], item xs 1]]
              @ drop 2 xs))))))"

text \<open>
  \<^verbatim>\<open>role: function (role, [type, opts, ...rest]) {
    return ['annotation', {role}, [type, opts, ...rest]]; }\<close>
\<close>

definition S_role :: "jsval \<Rightarrow> jsval \<Rightarrow> error + jsval" where
  "S_role role schema = blessFn
     (andThen (iterate schema) (\<lambda>xs.
        Inr (VArray plain
          [VString ''annotation'', VObject [(''role'', role)],
           VArray plain ([item xs 0, item xs 1] @ drop 2 xs)])))"

definition S_boolean :: jsval where
  "S_boolean = bless (VArray plain [VString ''boolean'', VObject []])"

definition S_nullval :: jsval where
  "S_nullval = bless (VArray plain [VString ''null'', VObject []])"

section \<open>Basic facts\<close>

subsection \<open>Outcomes of calls\<close>

lemma blessFn_Inr [simp]: "blessFn (Inr x) = Inr (bless x)"
  by (simp add: blessFn_def)

lemma blessFn_Inl [simp]: "blessFn (Inl e) = Inl e"
  by (simp add: blessFn_def)

lemma blessFn_eq_Inl [simp]: "blessFn r = Inl e \<longleftrightarrow> r = Inl e"
  by (cases r) auto

lemma blessFn_eq_Inr: "blessFn r = Inr v \<longleftrightarrow> (\<exists>x. r = Inr x \<and> v = bless x)"
  by (cases r) auto

lemma andThen_Inr [simp]: "andThen (Inr x) f = f x"
  by (simp add: andThen_def)

lemma andThen_Inl [simp]: "andThen (Inl e) f = Inl e"
  by (simp add: andThen_def)


lemma andThen_eq_Inr: "andThen r f = Inr y \<longleftrightarrow> (\<exists>x. r = Inr x \<and> f x = Inr y)"
  by (cases r) auto

lemma isSchema_VArray [simp]: "isSchema (VArray p xs) = p_schema p"
  by (simp add: isSchema_def)

subsection \<open>Every builder returns a blessed array\<close>

lemma isSchema_bless: "isArray x \<Longrightarrow> isSchema (bless x)"
  by (cases x) auto

lemma blessFn_isSchema:
  "blessFn r = Inr v \<Longrightarrow> (\<And>x. r = Inr x \<Longrightarrow> isArray x) \<Longrightarrow> isSchema v"
  by (auto simp: blessFn_eq_Inr isSchema_bless)

lemma objargs_isArray: "objargs rx c type args = Inr x \<Longrightarrow> isArray x"
  by (auto simp: objargs.simps andThen_eq_Inr split: if_splits)

lemma S_string_isSchema: "S_string value = Inr v \<Longrightarrow> isSchema v"
  by (auto simp: S_string_def Let_def)


lemma S_number_isSchema: "S_number value = Inr v \<Longrightarrow> isSchema v"
  by (auto simp: S_number_def Let_def)

lemma S_arrayOf_isSchema: "S_arrayOf rx c schema = Inr v \<Longrightarrow> isSchema v"
  unfolding S_arrayOf.simps by (erule blessFn_isSchema) (auto simp: andThen_eq_Inr)

lemma S_array_isSchema: "S_array rx c schemas = Inr v \<Longrightarrow> isSchema v"
  unfolding S_array.simps by (erule blessFn_isSchema) (auto simp: andThen_eq_Inr)

lemma S_or_isSchema: "S_or rx c schemas = Inr v \<Longrightarrow> isSchema v"
  unfolding S_or_def by (erule blessFn_isSchema) (auto simp: andThen_eq_Inr)

lemma S_fn_isSchema: "S_fn rx c schemas = Inr v \<Longrightarrow> isSchema v"
  unfolding S_fn_def by (erule blessFn_isSchema) (auto simp: andThen_eq_Inr)

lemma S_object_isSchema: "S_object rx c args = Inr v \<Longrightarrow> isSchema v"
  unfolding S_object.simps by (erule blessFn_isSchema) (rule objargs_isArray)

lemma S_dict_isSchema: "S_dict rx c args = Inr v \<Longrightarrow> isSchema v"
  unfolding S_dict.simps by (erule blessFn_isSchema) (rule objargs_isArray)

lemma S_desc_isSchema: "S_desc rx c args = Inr v \<Longrightarrow> isSchema v"
  unfolding S_desc_def Let_def by (erule blessFn_isSchema) (auto simp: andThen_eq_Inr)

lemma S_role_isSchema: "S_role role schema = Inr v \<Longrightarrow> isSchema v"
  unfolding S_role_def by (erule blessFn_isSchema) (auto simp: andThen_eq_Inr)

lemma to_closure_isSchema: "to_closure s r = Inr v \<Longrightarrow> isSchema v"
  unfolding to_closure_def by (erule blessFn_isSchema) auto

lemma literals_isSchema: "literals rx c value = Inr v \<Longrightarrow> isSchema v"
  by (subst (asm) literals.simps)
     (auto split: if_splits
           dest: S_string_isSchema S_number_isSchema S_arrayOf_isSchema S_array_isSchema
                 S_dict_isSchema S_object_isSchema)

lemma literals_schema: "isSchema value \<Longrightarrow> literals rx c value = Inr value"
  by (subst literals.simps) simp

subsection \<open>Strings\<close>

lemma indexOf_ge: "- 1 \<le> indexOf k sub"
  by (induction k) auto

lemma indexOf_0_iff: "indexOf k sub = 0 \<longleftrightarrow> prefix sub k"
proof (cases k)
  case Nil
  then show ?thesis by simp
next
  case (Cons x xs)
  then show ?thesis using indexOf_ge [of xs sub] by auto
qed

lemma slice_strip: "slice k 1 (length k - 1) = butlast (tl k)"
  by (simp add: slice_def butlast_conv_take drop_Suc drop_take tl_take flip: tl_drop)

subsection \<open>Evaluation\<close>

text \<open>The defining equations, for evaluating the builders on concrete arguments.\<close>

lemmas builders_eval =
  literals.simps S_arrayOf.simps S_array.simps S_object.simps S_dict.simps objargs.simps key.simps
  S_string_def S_number_def S_or_def S_fn_def S_desc_def S_role_def S_objectOf_def
  S_boolean_def S_nullval_def to_closure_def
  keyType_def magic_def cases_def new_RegExp_def cache_get_def
  map_object_def isArrayLike_def keys_entries_def Object_keys_def partitionN_def slice_def item_def
  m_def extend_def pick_defined_def allKeys_entries_def plain_def schemaMagic_def
  isSchema_def Let_def

section \<open>Key classification\<close>

text \<open>
  Claim C6. For every string key \<open>k\<close>, \<open>keyType k\<close> is \<^verbatim>\<open>'pattern'\<close> exactly when both
  the first and the last character of \<open>k\<close> are the slash; otherwise it is
  \<^verbatim>\<open>'reference'\<close> exactly when \<open>k\<close> begins with the reserved prefix \<open>magic\<close>; otherwise it
  is \<^verbatim>\<open>'string'\<close>. For a key classified as a pattern, \<open>key\<close> builds the regular expression
  from \<open>k\<close> without its first and last character (\<open>butlast (tl k)\<close>) and returns the pair
  of the string schema holding that pattern and the coerced value schema; the constructor is
  called first, so a rejected pattern text raises before the value is coerced.
\<close>

theorem keyType_classification:
  "keyType k =
     (if k \<noteq> [] \<and> hd k = CHR ''/'' \<and> last k = CHR ''/'' then ''pattern''
      else if prefix magic k then ''reference'' else ''string'')
   \<and> (keyType k = ''pattern'' \<longrightarrow>
        key rx c schema k =
          (if rx (butlast (tl k)) then
             andThen (literals rx c schema) (\<lambda>s.
               Inr (VArray plain
                 [VArray (Props True False False)
                    [VString ''string'', VObject [],
                     VArray plain [VString ''pattern'', VRegExp (butlast (tl k))]], s]))
           else Inl SyntaxError))"
proof -
  have kt: "keyType k =
     (if k \<noteq> [] \<and> hd k = CHR ''/'' \<and> last k = CHR ''/'' then ''pattern''
      else if prefix magic k then ''reference'' else ''string'')"
    by (cases k) (auto simp: keyType_def indexOf_0_iff hd_conv_nth last_conv_nth)
  have "key rx c schema k =
          (if rx (butlast (tl k)) then
             andThen (literals rx c schema) (\<lambda>s.
               Inr (VArray plain
                 [VArray (Props True False False)
                    [VString ''string'', VObject [],
                     VArray plain [VString ''pattern'', VRegExp (butlast (tl k))]], s]))
           else Inl SyntaxError)" if "keyType k = ''pattern''"
    using that
    by (simp add: key.simps cases_def new_RegExp_def slice_strip [simplified] S_string_def Let_def plain_def)
  with kt show ?thesis by blast
qed

theorem keyType_classification_witness:
  "keyType ''/fo*/'' = ''pattern'' \<and>
   key (\<lambda>_. True) Map.empty (VNumber (Finite 5)) ''/fo*/'' =
     Inr (VArray plain
       [VArray (Props True False False)
          [VString ''string'', VObject [], VArray plain [VString ''pattern'', VRegExp ''fo*'']],
        VArray (Props True False False)
          [VString ''number'', VObject [], VArray plain [VString ''value'', VNumber (Finite 5)]]])"
proof -
  have lit: "literals (\<lambda>_. True) Map.empty (VNumber (Finite 5)) =
     Inr (VArray (Props True False False)
          [VString ''number'', VObject [], VArray plain [VString ''value'', VNumber (Finite 5)]])"
    by (simp add: literals.simps S_number_def isSchema_def Let_def plain_def)
  show ?thesis
    using keyType_classification [of "''/fo*/''" "\<lambda>_. True" Map.empty "VNumber (Finite 5)"]
    by (simp add: lit magic_def)
qed

section \<open>Blessing invariant\<close>

lemma blessed_resultI: "(\<And>v. r = Inr v \<Longrightarrow> isSchema v) \<Longrightarrow> blessed_result r"
  by (cases r) (auto simp: blessed_result_def)

lemma S_fn_has_to: "S_fn rx c schemas = Inr f \<Longrightarrow> method_to f = Some (to_closure (elements f))"
  by (auto simp: S_fn_def blessFn_eq_Inr andThen_eq_Inr)

lemma to_closure_total: "\<exists>n. to_closure s r = Inr n \<and> isSchema n \<and> method_to n = None"
  by (simp add: to_closure_def plain_def)

text \<open>
  Claim C9. Every node returned by a builder of the export carries the blessing marker:
  \<open>string\<close>, \<open>number\<close>, \<open>or\<close>, \<open>array\<close>, \<open>arrayOf\<close>, \<open>object\<close>, \<open>dict\<close> and its alias
  \<open>objectOf\<close>, \<open>fn\<close>, \<open>desc\<close>, \<open>role\<close>, the constants \<open>boolean\<close> and \<open>nullval\<close>, the
  result of the method \<open>to\<close> of a node built by \<open>fn\<close>, and every node \<open>literals\<close> returns.
  And \<open>isSchema v\<close> holds exactly when \<open>v\<close> is an array that carries the marker.
\<close>

theorem blessing_invariant:
  "blessed_result (S_string v) \<and> blessed_result (S_number v)
   \<and> blessed_result (S_or rx c vs) \<and> blessed_result (S_array rx c vs)
   \<and> blessed_result (S_arrayOf rx c v) \<and> blessed_result (S_object rx c vs)
   \<and> blessed_result (S_dict rx c vs) \<and> blessed_result (S_objectOf rx c vs)
   \<and> blessed_result (S_fn rx c vs) \<and> blessed_result (S_desc rx c vs)
   \<and> blessed_result (S_role v w)
   \<and> isSchema S_boolean \<and> isSchema S_nullval
   \<and> (case S_fn rx c vs of Inl e \<Rightarrow> True
        | Inr f \<Rightarrow> (case method_to f of None \<Rightarrow> False | Some g \<Rightarrow> blessed_result (g w)))
   \<and> blessed_result (literals rx c v)
   \<and> (isSchema v \<longleftrightarrow> (\<exists>p xs. v = VArray p xs \<and> p_schema p))"
proof -
  have fn_to: "case S_fn rx c vs of Inl e \<Rightarrow> True
        | Inr f \<Rightarrow> (case method_to f of None \<Rightarrow> False | Some g \<Rightarrow> blessed_result (g w))"
  proof (cases "S_fn rx c vs")
    case (Inr f)
    from S_fn_has_to [OF this] to_closure_total [of "elements f" w] Inr show ?thesis
      by (auto simp: blessed_result_def)
  qed simp
  have last: "isSchema v \<longleftrightarrow> (\<exists>p xs. v = VArray p xs \<and> p_schema p)"
    by (cases v) (auto simp: isSchema_def)
  have cs: "isSchema S_boolean" "isSchema S_nullval"
    by (simp_all add: S_boolean_def S_nullval_def)
  show ?thesis
    by (intro conjI blessed_resultI fn_to last cs)
       (auto simp: S_objectOf_def
             dest: S_string_isSchema S_number_isSchema S_or_isSchema S_array_isSchema
                   S_arrayOf_isSchema S_object_isSchema S_dict_isSchema S_fn_isSchema
                   S_desc_isSchema S_role_isSchema literals_isSchema)
qed

theorem blessing_invariant_witness:
  "(\<exists>n. S_array (\<lambda>_. True) Map.empty [VNumber (Finite 5), VString ''foo''] = Inr n \<and> isSchema n)
   \<and> (\<exists>n. literals (\<lambda>_. True) Map.empty (VObject [(''len'', VNumber (Finite 10))]) = Inr n \<and> isSchema n)"
proof -
  have a: "\<exists>n. S_array (\<lambda>_. True) Map.empty [VNumber (Finite 5), VString ''foo''] = Inr n"
    by (simp add: builders_eval)
  have b: "\<exists>n. literals (\<lambda>_. True) Map.empty (VObject [(''len'', VNumber (Finite 10))]) = Inr n"
    by (simp add: builders_eval)
  from a b
    blessing_invariant [of "VObject [(''len'', VNumber (Finite 10))]" "\<lambda>_. True" Map.empty
      "[VNumber (Finite 5), VString ''foo'']" VNull]
  show ?thesis by (auto simp: blessed_result_def)
qed

section \<open>Literal coercion\<close>

text \<open>
  Claim C7. Literal coercion is idempotent: whenever \<open>literals\<close> returns a node \<open>y\<close> for an
  input \<open>x\<close>, coercing \<open>y\<close> again returns \<open>y\<close>; and every value that is already a blessed
  schema node is returned as it is.
\<close>

theorem literals_idempotent:
  "(literals rx c x = Inr y \<longrightarrow> literals rx c y = Inr y)
   \<and> (isSchema v \<longrightarrow> literals rx c v = Inr v)"
  by (auto dest: literals_isSchema simp: literals_schema)

theorem literals_idempotent_witness:
  "literals (\<lambda>_. True) Map.empty (VArray plain [VString ''foo'']) =
     Inr (VArray (Props True False False)
       [VString ''list'', VObject [],
        VArray (Props True False False)
          [VString ''string'', VObject [], VArray plain [VString ''value'', VString ''foo'']]])
   \<and> literals (\<lambda>_. True) Map.empty
       (VArray (Props True False False)
         [VString ''list'', VObject [],
          VArray (Props True False False)
            [VString ''string'', VObject [], VArray plain [VString ''value'', VString ''foo'']]]) =
     Inr (VArray (Props True False False)
       [VString ''list'', VObject [],
        VArray (Props True False False)
          [VString ''string'', VObject [], VArray plain [VString ''value'', VString ''foo'']]])
   \<and> isSchema S_boolean \<and> literals (\<lambda>_. True) Map.empty S_boolean = Inr S_boolean"
proof -
  have h: "literals (\<lambda>_. True) Map.empty (VArray plain [VString ''foo'']) =
     Inr (VArray (Props True False False)
       [VString ''list'', VObject [],
        VArray (Props True False False)
          [VString ''string'', VObject [], VArray plain [VString ''value'', VString ''foo'']]])"
    by (simp add: builders_eval)
  have b: "isSchema S_boolean"
    by (simp add: S_boolean_def)
  from h b literals_idempotent [of "\<lambda>_. True" Map.empty "VArray plain [VString ''foo'']"
      "VArray (Props True False False)
       [VString ''list'', VObject [],
        VArray (Props True False False)
          [VString ''string'', VObject [], VArray plain [VString ''value'', VString ''foo'']]]"
      S_boolean]
  show ?thesis by blast
qed

subsection \<open>The error of literal coercion\<close>

text \<open>
  \<^verbatim>\<open>literals\<close> raises its error in the last branch, for the value it was given, and passes
  on the error raised by a call of itself on a part of that value.
\<close>

lemma unsupported_kinds:
  "unsupported v \<longleftrightarrow>
     v = VUndefined \<or> v = VNull \<or> (\<exists>b. v = VBoolean b) \<or> (\<exists>n src. v = VFunction n src)"
  by (cases v) (auto simp: unsupported_def isSchema_def)













section \<open>Reference keys\<close>

lemma keyType_magic: "keyType (magic @ ds) = ''reference''"
  by (simp add: keyType_def indexOf_0_iff) (simp add: magic_def)

lemma key_reference:
  "keyType k = ''reference'' \<Longrightarrow>
   key rx c schema k = andThen (literals rx c schema) (\<lambda>s. Inr (VArray plain [cache_get c k, s]))"
  by (simp add: key.simps cases_def)




text \<open>
  Claim C2 says that a key classified as a reference for which the cache holds no entry
  makes the construction fail with an error, so that no pair with a missing key schema is
  produced. The source has no such check: \<^verbatim>\<open>cache[k]\<close> of a missing entry is
  \<^verbatim>\<open>undefined\<close>, and \<open>key\<close> puts it in the pair. With an empty cache, the key
  \<^verbatim>\<open>__$$_$_$$1\<close> and the value \<open>5\<close>, \<open>key\<close> returns a pair whose key schema is
  \<^verbatim>\<open>undefined\<close>, and \<open>dict\<close> over the object with that single entry returns a node holding
  that pair.
\<close>

theorem unresolved_reference_counterexample:
  "keyType (magic @ ''1'') = ''reference''
   \<and> Map.empty (magic @ ''1'') = (None :: jsval option)
   \<and> key (\<lambda>_. True) Map.empty (VNumber (Finite 5)) (magic @ ''1'') =
       Inr (VArray plain
         [VUndefined,
          VArray (Props True False False)
            [VString ''number'', VObject [], VArray plain [VString ''value'', VNumber (Finite 5)]]])
   \<and> S_dict (\<lambda>_. True) Map.empty [VObject [(magic @ ''1'', VNumber (Finite 5))]] =
       Inr (VArray (Props True False False)
         [VString ''dict'', VObject [],
          VArray plain
           [VUndefined,
            VArray (Props True False False)
              [VString ''number'', VObject [], VArray plain [VString ''value'', VNumber (Finite 5)]]]])"
  by (simp add: builders_eval)

text \<open>
  Claim C2, as the code has it. For every key \<open>k\<close> classified as a reference for which the
  cache holds no entry, \<open>key\<close> raises nothing on account of the missing entry: it returns the
  pair of \<^verbatim>\<open>undefined\<close> and \<open>literals schema\<close>, and the only error it can raise is the
  one of coercing the value.
\<close>

theorem unresolved_reference_is_undefined:
  assumes "keyType k = ''reference''" and "c k = None"
  shows "key rx c schema k =
           andThen (literals rx c schema) (\<lambda>s. Inr (VArray plain [VUndefined, s]))"
  using key_reference [OF assms(1)] assms(2) by (simp add: cache_get_def)

theorem unresolved_reference_is_undefined_witness:
  "key (\<lambda>_. True) Map.empty (VNumber (Finite 5)) (magic @ ''1'') =
     Inr (VArray plain
       [VUndefined,
        VArray (Props True False False)
          [VString ''number'', VObject [], VArray plain [VString ''value'', VNumber (Finite 5)]]])"
proof -
  have kt: "keyType (magic @ ''1'') = ''reference''" by (rule keyType_magic)
  have l: "literals (\<lambda>_. True) Map.empty (VNumber (Finite 5)) =
     Inr (VArray (Props True False False)
        [VString ''number'', VObject [], VArray plain [VString ''value'', VNumber (Finite 5)]])"
    by (simp add: builders_eval)
  show ?thesis
    using unresolved_reference_is_undefined [OF kt, of Map.empty "\<lambda>_. True" "VNumber (Finite 5)"]
    by (simp add: l)
qed

section \<open>The array builder\<close>

lemma map_e_Inr: "map_e f xs = Inr ys \<longleftrightarrow> list_all2 (\<lambda>x y. f x = Inr y) xs ys"
proof (induction xs arbitrary: ys)
  case Nil
  then show ?case by auto
next
  case (Cons x xs)
  then show ?case by (cases ys) (auto simp: andThen_eq_Inr)
qed

text \<open>
  Claim C3 gives the node of \<open>array\<close> the shape \<^verbatim>\<open>['array', {}, ['tuple', ...children]]\<close>,
  which is the shape the test \<^verbatim>\<open>describe('#array')\<close> of the repository asserts. The
  builder of the source returns, for every argument list, the node
  \<^verbatim>\<open>['tuple', {}, ...children]\<close>: tagged \<^verbatim>\<open>tuple\<close>, with an options slot, the children (the
  arguments coerced by \<open>literals\<close>, in order) following it directly and no enclosing
  \<^verbatim>\<open>array\<close> node. The theorem states what the builder returns; its instance at the arguments
  of the test, \<^verbatim>\<open>array(number(5), string('foo'))\<close>, differs from the node the test expects.
\<close>

theorem array_builds_tuple:
  "S_array rx c schemas = Inr n \<longleftrightarrow>
     (\<exists>ss. list_all2 (\<lambda>x s. literals rx c x = Inr s) schemas ss
           \<and> n = VArray (Props True False False) ([VString ''tuple'', VObject []] @ ss))"
  by (auto simp: S_array.simps blessFn_eq_Inr andThen_eq_Inr map_e_Inr plain_def)

theorem array_builds_tuple_witness:
  "S_array (\<lambda>_. True) Map.empty
     [VArray (Props True False False)
        [VString ''number'', VObject [], VArray plain [VString ''value'', VNumber (Finite 5)]],
      VArray (Props True False False)
        [VString ''string'', VObject [], VArray plain [VString ''value'', VString ''foo'']]] =
   Inr (VArray (Props True False False)
     [VString ''tuple'', VObject [],
      VArray (Props True False False)
        [VString ''number'', VObject [], VArray plain [VString ''value'', VNumber (Finite 5)]],
      VArray (Props True False False)
        [VString ''string'', VObject [], VArray plain [VString ''value'', VString ''foo'']]])
   \<and> S_array (\<lambda>_. True) Map.empty
     [VArray (Props True False False)
        [VString ''number'', VObject [], VArray plain [VString ''value'', VNumber (Finite 5)]],
      VArray (Props True False False)
        [VString ''string'', VObject [], VArray plain [VString ''value'', VString ''foo'']]] \<noteq>
   Inr (VArray (Props True False False)
     [VString ''array'', VObject [],
      VArray plain
       [VString ''tuple'',
        VArray (Props True False False)
          [VString ''number'', VObject [], VArray plain [VString ''value'', VNumber (Finite 5)]],
        VArray (Props True False False)
          [VString ''string'', VObject [], VArray plain [VString ''value'', VString ''foo'']]]])"
proof -
  have l: "list_all2 (\<lambda>x s. literals (\<lambda>_. True) Map.empty x = Inr s)
     [VArray (Props True False False)
        [VString ''number'', VObject [], VArray plain [VString ''value'', VNumber (Finite 5)]],
      VArray (Props True False False)
        [VString ''string'', VObject [], VArray plain [VString ''value'', VString ''foo'']]]
     [VArray (Props True False False)
        [VString ''number'', VObject [], VArray plain [VString ''value'', VNumber (Finite 5)]],
      VArray (Props True False False)
        [VString ''string'', VObject [], VArray plain [VString ''value'', VString ''foo'']]]"
    by (simp add: literals_schema)
  have "S_array (\<lambda>_. True) Map.empty
     [VArray (Props True False False)
        [VString ''number'', VObject [], VArray plain [VString ''value'', VNumber (Finite 5)]],
      VArray (Props True False False)
        [VString ''string'', VObject [], VArray plain [VString ''value'', VString ''foo'']]] =
   Inr (VArray (Props True False False)
     [VString ''tuple'', VObject [],
      VArray (Props True False False)
        [VString ''number'', VObject [], VArray plain [VString ''value'', VNumber (Finite 5)]],
      VArray (Props True False False)
        [VString ''string'', VObject [], VArray plain [VString ''value'', VString ''foo'']]])"
    by (subst array_builds_tuple) (use l in auto)
  then show ?thesis by simp
qed

section \<open>Function schemas\<close>

text \<open>
  Claim C4 says that the method \<open>to\<close> replaces the return slot by \<open>literals r\<close>. The method
  of the source stores its argument as it is. For the node of \<^verbatim>\<open>fn()\<close>, calling \<open>to\<close> with
  the string \<^verbatim>\<open>'x'\<close> puts the string itself in the slot, not the string schema that
  \<open>literals\<close> returns for it; and calling it with a function returns a node, although
  \<open>literals\<close> raises on a function.
\<close>

theorem fn_to_counterexample:
  "S_fn (\<lambda>_. True) Map.empty [] =
     Inr (VArray (Props True False True) [VString ''function'', VObject [], VNull])
   \<and> method_to (VArray (Props True False True) [VString ''function'', VObject [], VNull]) =
       Some (to_closure [VString ''function'', VObject [], VNull])
   \<and> to_closure [VString ''function'', VObject [], VNull] (VString ''x'') =
       Inr (VArray (Props True False False) [VString ''function'', VObject [], VString ''x''])
   \<and> literals (\<lambda>_. True) Map.empty (VString ''x'') =
       Inr (VArray (Props True False False)
             [VString ''string'', VObject [], VArray plain [VString ''value'', VString ''x'']])
   \<and> to_closure [VString ''function'', VObject [], VNull] (VFunction 0 ''() => {}'') =
       Inr (VArray (Props True False False)
             [VString ''function'', VObject [], VFunction 0 ''() => {}''])
   \<and> literals (\<lambda>_. True) Map.empty (VFunction 0 ''() => {}'') =
       Inl (UnknownSchemaValue ''Unknown schema value () => {}'')"
  by (simp add: builders_eval)

text \<open>
  Claim C4, as the code has it. \<open>fn\<close> coerces each argument by \<open>literals\<close>, in order, and
  returns the blessed node \<^verbatim>\<open>['function', {}, null, ...]\<close> of the coerced arguments,
  decorated with the method \<open>to\<close> (it raises when a coercion raises). For every such node
  \<open>f\<close> and every value \<open>r\<close>, the method returns a new blessed node with the elements of
  \<open>f\<close>, except that the return slot (index 2) holds \<open>r\<close> itself, not coerced; the argument
  schemas are the same. The slot holds \<open>literals r\<close> exactly when \<open>r\<close> is already a schema
  node. The method builds its result from slices of \<open>f\<close>, so \<open>f\<close> is not changed.
\<close>

theorem fn_and_to:
  "S_fn rx c schemas =
     andThen (map_e (literals rx c) schemas) (\<lambda>ss.
       Inr (VArray (Props True False True) ([VString ''function'', VObject [], VNull] @ ss)))
   \<and> (S_fn rx c schemas = Inr f \<longrightarrow>
        (\<exists>ss. list_all2 (\<lambda>x s. literals rx c x = Inr s) schemas ss
          \<and> f = VArray (Props True False True) ([VString ''function'', VObject [], VNull] @ ss)
          \<and> method_to f = Some (to_closure (elements f))
          \<and> (\<forall>r. to_closure (elements f) r =
                 Inr (VArray (Props True False False) ([VString ''function'', VObject [], r] @ ss)))
          \<and> (\<forall>r. literals rx c r = Inr r \<longleftrightarrow> isSchema r)))"
proof -
  have eq: "S_fn rx c schemas =
     andThen (map_e (literals rx c) schemas) (\<lambda>ss.
       Inr (VArray (Props True False True) ([VString ''function'', VObject [], VNull] @ ss)))"
    by (cases "map_e (literals rx c) schemas") (simp_all add: S_fn_def)
  have "\<exists>ss. list_all2 (\<lambda>x s. literals rx c x = Inr s) schemas ss
          \<and> f = VArray (Props True False True) ([VString ''function'', VObject [], VNull] @ ss)
          \<and> method_to f = Some (to_closure (elements f))
          \<and> (\<forall>r. to_closure (elements f) r =
                 Inr (VArray (Props True False False) ([VString ''function'', VObject [], r] @ ss)))
          \<and> (\<forall>r. literals rx c r = Inr r \<longleftrightarrow> isSchema r)"
    if "S_fn rx c schemas = Inr f"
  proof -
    from that eq obtain ss where ss: "map_e (literals rx c) schemas = Inr ss"
      and f: "f = VArray (Props True False True) ([VString ''function'', VObject [], VNull] @ ss)"
      by (auto simp: andThen_eq_Inr)
    from ss have "list_all2 (\<lambda>x s. literals rx c x = Inr s) schemas ss"
      by (simp add: map_e_Inr)
    moreover from f have "method_to f = Some (to_closure (elements f))" by simp
    moreover from f have "to_closure (elements f) r =
        Inr (VArray (Props True False False) ([VString ''function'', VObject [], r] @ ss))" for r
      by (simp add: to_closure_def slice_def plain_def)
    moreover have "literals rx c r = Inr r \<longleftrightarrow> isSchema r" for r
      using literals_schema literals_isSchema by blast
    ultimately show ?thesis using f by blast
  qed
  with eq show ?thesis by blast
qed

theorem fn_and_to_witness:
  "\<exists>ss. list_all2 (\<lambda>x s. literals (\<lambda>_. True) Map.empty x = Inr s) [VString ''x''] ss
     \<and> (\<forall>r. to_closure ([VString ''function'', VObject [], VNull] @ ss) r =
            Inr (VArray (Props True False False) ([VString ''function'', VObject [], r] @ ss)))"
proof -
  have h: "\<exists>f. S_fn (\<lambda>_. True) Map.empty [VString ''x''] = Inr f"
    by (simp add: builders_eval)
  then obtain f where f: "S_fn (\<lambda>_. True) Map.empty [VString ''x''] = Inr f" ..
  from fn_and_to [of "\<lambda>_. True" Map.empty "[VString ''x'']" f] f
  show ?thesis by auto
qed

text \<open>
  Claim C10. The node returned by the method \<open>to\<close> of a node built by \<open>fn\<close> has no method
  \<open>to\<close> of its own: the method assembles its result from slices of the original array, and
  only \<open>fn\<close> attaches the method, so a call of \<open>to\<close> cannot be chained on its result.
\<close>

theorem to_not_chainable:
  assumes "S_fn rx c schemas = Inr f"
  shows "\<exists>g. method_to f = Some g \<and> (\<forall>r. \<exists>n. g r = Inr n \<and> method_to n = None)"
  using S_fn_has_to [OF assms] to_closure_total by blast

theorem to_not_chainable_witness:
  "\<exists>g. method_to (VArray (Props True False True) [VString ''function'', VObject [], VNull]) = Some g
       \<and> (\<forall>r. \<exists>n. g r = Inr n \<and> method_to n = None)"
proof -
  have h: "S_fn (\<lambda>_. True) Map.empty [] =
            Inr (VArray (Props True False True) [VString ''function'', VObject [], VNull])"
    by (simp add: builders_eval)
  from to_not_chainable [OF h] show ?thesis .
qed

section \<open>Metadata\<close>

lemma fold_update_map_of:
  "map_of (fold (\<lambda>(k, v). AList.update k v) src dst) = map_of dst ++ map_of (rev src)"
proof (induction src arbitrary: dst)
  case Nil
  then show ?case by simp
next
  case (Cons x src)
  obtain k v where x: "x = (k, v)" by (cases x)
  show ?case
    by (auto simp: Cons.IH x update_conv' fun_eq_iff map_add_def split: option.splits)
qed

lemma fold_update_distinct:
  "distinct (map fst dst) \<Longrightarrow> distinct (map fst (fold (\<lambda>(k, v). AList.update k v) src dst))"
  by (induction src arbitrary: dst) (auto simp: distinct_update)

lemma map_of_rev_distinct: "distinct (map fst xs) \<Longrightarrow> map_of (rev xs) = map_of xs"
proof (induction xs)
  case Nil
  then show ?case by simp
next
  case (Cons x xs)
  then have "map_of xs (fst x) = None"
    by (simp add: map_of_eq_None_iff)
  with Cons show ?case
    by (cases x) (auto simp: fun_eq_iff map_add_def split: option.splits)
qed

lemma map_of_pick_defined:
  "distinct (map fst kvs) \<Longrightarrow>
   map_of (pick_defined kvs) k =
     (case map_of kvs k of Some v \<Rightarrow> if v = VUndefined then None else Some v | None \<Rightarrow> None)"
proof (induction kvs)
  case Nil
  then show ?case by (simp add: pick_defined_def)
next
  case (Cons x kvs)
  obtain k' v' where x: "x = (k', v')" by (cases x)
  from Cons.prems x have "map_of kvs k' = None"
    by (simp add: map_of_eq_None_iff)
  then have "map_of (pick_defined kvs) k' = None"
    by (auto simp: pick_defined_def map_of_eq_None_iff)
  with Cons x show ?case
    by (auto simp: pick_defined_def)
qed

lemma distinct_pick_defined: "distinct (map fst kvs) \<Longrightarrow> distinct (map fst (pick_defined kvs))"
  unfolding pick_defined_def by (simp add: distinct_map_filter)

lemma m_title_description:
  assumes "distinct (map fst opts)"
  shows "\<exists>opts'. m [VObject [(''title'', T), (''description'', D)], VObject opts] = VObject opts'
     \<and> distinct (map fst opts')
     \<and> (\<forall>k. map_of opts' k =
          (case map_of opts k of
             Some v \<Rightarrow> if v = VUndefined then None else Some v
           | None \<Rightarrow>
               if k = ''title'' \<and> T \<noteq> VUndefined then Some T
               else if k = ''description'' \<and> D \<noteq> VUndefined then Some D
               else None))"
proof -
  let ?merged = "fold (\<lambda>(k, v). AList.update k v) opts [(''title'', T), (''description'', D)]"
  have ext: "extend [] [VObject [(''title'', T), (''description'', D)], VObject opts] = ?merged"
    by (simp add: extend_def allKeys_entries_def)
  have d: "distinct (map fst ?merged)"
    by (rule fold_update_distinct) simp
  have look: "map_of ?merged k =
      (case map_of opts k of Some v \<Rightarrow> Some v
       | None \<Rightarrow> if k = ''title'' then Some T else if k = ''description'' then Some D else None)" for k
    by (simp add: fold_update_map_of map_of_rev_distinct [OF assms] map_add_def split: option.splits)
  have "map_of (pick_defined ?merged) k =
          (case map_of opts k of
             Some v \<Rightarrow> if v = VUndefined then None else Some v
           | None \<Rightarrow>
               if k = ''title'' \<and> T \<noteq> VUndefined then Some T
               else if k = ''description'' \<and> D \<noteq> VUndefined then Some D
               else None)" for k
    by (simp add: map_of_pick_defined [OF d] look split: option.splits)
  with distinct_pick_defined [OF d] ext show ?thesis
    by (simp add: m_def)
qed

text \<open>
  Claim C5, as the code has it. Let \<open>s\<close> be a schema node \<^verbatim>\<open>[tag, options, ...params]\<close>
  whose options are a plain object. Then \<open>desc(T, D, s)\<close> returns a new blessed node with the
  reference behaviour, the tag and the params of \<open>s\<close>, and options that hold: every entry
  of the options of \<open>s\<close> whose value is not \<^verbatim>\<open>undefined\<close>; the title \<open>T\<close> if the options
  of \<open>s\<close> have no key \<^verbatim>\<open>title\<close> and \<open>T\<close> is not \<^verbatim>\<open>undefined\<close>; the description \<open>D\<close>
  under the same two conditions; and nothing else. So an entry already present in the options
  of \<open>s\<close> is kept in preference to the title or description supplied, and no entry of the
  result is \<^verbatim>\<open>undefined\<close>. The form with two arguments, \<open>desc(D, s)\<close>, is
  \<open>desc(undefined, D, s)\<close>: it adds no title.
\<close>

theorem desc_merges_metadata:
  assumes "isSchema s" and "s = VArray p (ty # VObject opts # params)"
    and "distinct (map fst opts)"
  shows "\<exists>opts'.
       S_desc rx c [T, D, s] = Inr (VArray (Props True True False) (ty # VObject opts' # params))
     \<and> distinct (map fst opts')
     \<and> (\<forall>k. map_of opts' k =
          (case map_of opts k of
             Some v \<Rightarrow> if v = VUndefined then None else Some v
           | None \<Rightarrow>
               if k = ''title'' \<and> T \<noteq> VUndefined then Some T
               else if k = ''description'' \<and> D \<noteq> VUndefined then Some D
               else None))
     \<and> S_desc rx c [D, s] = S_desc rx c [VUndefined, D, s]"
proof -
  from m_title_description [OF assms(3), of T D] obtain opts'
    where m: "m [VObject [(''title'', T), (''description'', D)], VObject opts] = VObject opts'"
      and rest: "distinct (map fst opts')"
        "\<forall>k. map_of opts' k =
          (case map_of opts k of
             Some v \<Rightarrow> if v = VUndefined then None else Some v
           | None \<Rightarrow>
               if k = ''title'' \<and> T \<noteq> VUndefined then Some T
               else if k = ''description'' \<and> D \<noteq> VUndefined then Some D
               else None)"
    by blast
  have "S_desc rx c [T, D, s] = Inr (VArray (Props True True False) (ty # VObject opts' # params))"
    using assms(1,2) m
    by (simp add: S_desc_def item_def literals_schema plain_def)
  moreover have "S_desc rx c [D, s] = S_desc rx c [VUndefined, D, s]"
    by (simp add: S_desc_def)
  ultimately show ?thesis using rest by blast
qed

theorem desc_merges_metadata_witness:
  "\<exists>opts'.
     S_desc (\<lambda>_. True) Map.empty
       [VString ''title string'', VString ''doc string'',
        VArray (Props True False False)
          [VString ''number'', VObject [(''unit'', VString ''cm''), (''hint'', VUndefined)],
           VArray plain []]] =
       Inr (VArray (Props True True False) [VString ''number'', VObject opts', VArray plain []])
     \<and> map_of opts' ''title'' = Some (VString ''title string'')
     \<and> map_of opts' ''description'' = Some (VString ''doc string'')
     \<and> map_of opts' ''unit'' = Some (VString ''cm'')
     \<and> map_of opts' ''hint'' = None"
proof -
  have s: "isSchema (VArray (Props True False False)
          [VString ''number'', VObject [(''unit'', VString ''cm''), (''hint'', VUndefined)],
           VArray plain []])"
    by simp
  have d: "distinct (map fst [(''unit'', VString ''cm''), (''hint'', VUndefined)])"
    by simp
  from desc_merges_metadata [OF s refl d, of "\<lambda>_. True" Map.empty "VString ''title string''"
      "VString ''doc string''"]
  show ?thesis by auto
qed

text \<open>
  Claim C5 says that for every schema node the options of the result are extended by the
  title and the description supplied, and that the form with two arguments leaves the title
  out. A node that already has a title and a description keeps them: describing the node of
  \<^verbatim>\<open>desc('T1', 'D1', string())\<close> again with \<^verbatim>\<open>'T2'\<close> and \<^verbatim>\<open>'D2'\<close> returns the same node,
  still titled \<^verbatim>\<open>'T1'\<close>, and so does the form with two arguments.
\<close>

theorem desc_counterexample:
  "S_desc (\<lambda>_. True) Map.empty
     [VString ''T1'', VString ''D1'',
      VArray (Props True False False) [VString ''string'', VObject [], VArray plain []]] =
     Inr (VArray (Props True True False)
       [VString ''string'',
        VObject [(''title'', VString ''T1''), (''description'', VString ''D1'')],
        VArray plain []])
   \<and> S_desc (\<lambda>_. True) Map.empty
     [VString ''T2'', VString ''D2'',
      VArray (Props True True False)
       [VString ''string'',
        VObject [(''title'', VString ''T1''), (''description'', VString ''D1'')],
        VArray plain []]] =
     Inr (VArray (Props True True False)
       [VString ''string'',
        VObject [(''title'', VString ''T1''), (''description'', VString ''D1'')],
        VArray plain []])
   \<and> S_desc (\<lambda>_. True) Map.empty
     [VString ''D2'',
      VArray (Props True True False)
       [VString ''string'',
        VObject [(''title'', VString ''T1''), (''description'', VString ''D1'')],
        VArray plain []]] =
     Inr (VArray (Props True True False)
       [VString ''string'',
        VObject [(''title'', VString ''T1''), (''description'', VString ''D1'')],
        VArray plain []])"
  by (simp add: builders_eval)

end
